theory Spec2Isabelle
  imports Main "HOL-Library.FSet" "HOL-Library.Word"
begin

section \<open>Web image collector: strings and path helpers\<close>

text \<open>
  The program is \<^verbatim>\<open>src/main.py\<close>, one Tk application class \<^verbatim>\<open>ImageScraperApp\<close>.
  Python \<^verbatim>\<open>str\<close> values are modelled as \<^typ>\<open>string\<close>, one \<^typ>\<open>char\<close> per code point
  (code points below 256), \<^verbatim>\<open>bytes\<close> as lists of 8-bit words, Python's unbounded
  integer counters, which here only count upwards from 0 or 1, as \<^typ>\<open>nat\<close>.
\<close>

type_synonym bytes = "8 word list"

subsection \<open>\<^verbatim>\<open>str(i)\<close> for a non-negative integer\<close>

definition digit_char :: "nat \<Rightarrow> char" where
  "digit_char d = char_of (48 + d)"

function str_nat :: "nat \<Rightarrow> string" where
  "str_nat n = (if n < 10 then [digit_char n] else str_nat (n div 10) @ [digit_char (n mod 10)])"
  by pat_completeness auto
termination
  by (relation "measure (\<lambda>n. n)") auto

declare str_nat.simps [simp del]

text \<open>Reading a decimal numeral back; used only to show that \<open>str_nat\<close> is injective.\<close>

definition digit_val :: "char \<Rightarrow> nat" where
  "digit_val c = of_char c - 48"

definition nat_of_digits :: "string \<Rightarrow> nat" where
  "nat_of_digits s = foldl (\<lambda>a c. 10 * a + digit_val c) 0 s"

subsection \<open>\<^verbatim>\<open>os.path.splitext\<close> and \<^verbatim>\<open>os.path.basename\<close> (posixpath)\<close>

text \<open>
  \<^verbatim>\<open>os.path\<close> is taken to be \<^verbatim>\<open>posixpath\<close>; \<^verbatim>\<open>ntpath\<close> differs in the separators it knows.
  The statements about the collision loop hold for any base and extension, so they do not
  depend on this choice.

  \<^verbatim>\<open>str.rfind(c)\<close>: the index of the last occurrence, or -1.
\<close>

fun rfind_from :: "char \<Rightarrow> string \<Rightarrow> int \<Rightarrow> int \<Rightarrow> int" where
  "rfind_from c [] pos found = found"
| "rfind_from c (x # xs) pos found = rfind_from c xs (pos + 1) (if x = c then pos else found)"

definition rfind :: "string \<Rightarrow> char \<Rightarrow> int" where
  "rfind p c = rfind_from c p 0 (-1)"

text \<open>
  \<^verbatim>\<open>genericpath._splitext(p, '/', None, '.')\<close>:
  \<^verbatim>\<open>
    sepIndex = p.rfind(sep)
    dotIndex = p.rfind(extsep)
    if dotIndex > sepIndex:
        filenameIndex = sepIndex + 1
        while filenameIndex < dotIndex:
            if p[filenameIndex:filenameIndex+1] != extsep:
                return p[:dotIndex], p[dotIndex:]
            filenameIndex += 1
    return p, p[:0]
  \<close>
  The inner loop finds a character other than the dot between the separator and the
  last dot; the slice \<open>p[filenameIndex:dotIndex]\<close> is scanned here at once.
\<close>

definition splitext :: "string \<Rightarrow> string \<times> string" where
  "splitext p =
     (let sepIndex = rfind p CHR ''/'';
          dotIndex = rfind p CHR ''.''
      in if dotIndex > sepIndex \<and>
            (\<exists>c \<in> set (drop (nat (sepIndex + 1)) (take (nat dotIndex) p)). c \<noteq> CHR ''.'')
         then (take (nat dotIndex) p, drop (nat dotIndex) p)
         else (p, []))"

text \<open>\<^verbatim>\<open>posixpath.basename(p)\<close>: \<^verbatim>\<open>i = p.rfind('/') + 1; return p[i:]\<close>.\<close>

definition basename :: "string \<Rightarrow> string" where
  "basename p = drop (nat (rfind p CHR ''/'' + 1)) p"

text \<open>\<^verbatim>\<open>posixpath.join(a, b)\<close> for two components.\<close>

definition path_join :: "string \<Rightarrow> string \<Rightarrow> string" where
  "path_join a b =
     (if take 1 b = ''/'' then b
      else if a = [] \<or> (a \<noteq> [] \<and> last a = CHR ''/'') then a @ b
      else a @ ''/'' @ b)"

section \<open>The save pipeline: collision-free file names\<close>

text \<open>
  \<^verbatim>\<open>
    def _unique_filename(self, directory, filename, existing_files):
        base, ext = os.path.splitext(filename)
        candidate = filename
        i = 1
        while candidate in existing_files:
            candidate = f"{base}_{i}{ext}"
            i += 1
        existing_files.add(candidate)
        return candidate
  \<close>
  \<open>existing_files\<close> is a Python \<^verbatim>\<open>set\<close>, hence finite: a \<^typ>\<open>string fset\<close>. The set is
  mutated in place; the model returns it updated.
\<close>

definition numbered :: "string \<Rightarrow> string \<Rightarrow> nat \<Rightarrow> string" where
  "numbered base ext i = base @ ''_'' @ str_nat i @ ext"

function unique_loop :: "string \<Rightarrow> string \<Rightarrow> string fset \<Rightarrow> string \<Rightarrow> nat \<Rightarrow> string" where
  "unique_loop base ext existing_files candidate i =
     (if candidate |\<in>| existing_files
      then unique_loop base ext existing_files (numbered base ext i) (i + 1)
      else candidate)"
  by pat_completeness auto

text \<open>
  The loop ends because \<open>existing_files\<close> is finite and the numbered candidates are pairwise
  different: the claimed candidates with a number from \<open>i\<close> on get fewer at every turn.
\<close>

lemma digit_val_digit_char: "d < 10 \<Longrightarrow> digit_val (digit_char d) = d"
  by (simp add: digit_val_def digit_char_def)

lemma nat_of_digits_snoc: "nat_of_digits (s @ [c]) = 10 * nat_of_digits s + digit_val c"
  by (simp add: nat_of_digits_def)

lemma nat_of_digits_str_nat: "nat_of_digits (str_nat n) = n"
proof (induction n rule: str_nat.induct)
  case (1 n)
  show ?case
  proof (cases "n < 10")
    case True
    then show ?thesis
      by (subst str_nat.simps) (simp add: nat_of_digits_def digit_val_digit_char)
  next
    case False
    with "1" have "nat_of_digits (str_nat (n div 10)) = n div 10" by simp
    with False show ?thesis
      by (subst str_nat.simps) (simp add: nat_of_digits_snoc digit_val_digit_char)
  qed
qed

lemma str_nat_inj: "str_nat i = str_nat j \<Longrightarrow> i = j"
  by (metis nat_of_digits_str_nat)

lemma numbered_inj: "numbered base ext i = numbered base ext j \<Longrightarrow> i = j"
  by (simp add: numbered_def str_nat_inj)

definition later_taken :: "string \<Rightarrow> string \<Rightarrow> string fset \<Rightarrow> nat \<Rightarrow> string set" where
  "later_taken base ext existing_files i = fset existing_files \<inter> numbered base ext ` {i..}"

lemma finite_later_taken: "finite (later_taken base ext E i)"
  by (simp add: later_taken_def)

lemma later_taken_step:
  "later_taken base ext E i =
     (if numbered base ext i |\<in>| E
      then insert (numbered base ext i) (later_taken base ext E (Suc i))
      else later_taken base ext E (Suc i))"
proof -
  have "{i..} = insert i {Suc i..}" by auto
  then show ?thesis by (auto simp: later_taken_def)
qed

lemma numbered_notin_later: "numbered base ext i \<notin> later_taken base ext E (Suc i)"
  by (auto simp: later_taken_def dest: numbered_inj)

lemma card_later_taken_step:
  "card (later_taken base ext E (Suc i)) + (if numbered base ext i |\<in>| E then 1 else 0)
     = card (later_taken base ext E i)"
  by (subst (2) later_taken_step) (simp add: finite_later_taken numbered_notin_later)

termination unique_loop
  apply (relation "measure (\<lambda>(base, ext, E, c, i).
           card (later_taken base ext E i) + (if c |\<in>| E then 1 else 0))")
   apply simp
  apply (simp add: card_later_taken_step)
  done

declare unique_loop.simps [simp del]

text \<open>The \<open>directory\<close> argument is not used by the source either.\<close>

definition unique_filename :: "string \<Rightarrow> string \<Rightarrow> string fset \<Rightarrow> string \<times> string fset" where
  "unique_filename directory fname existing_files =
     (let (base, ext) = splitext fname;
          candidate = unique_loop base ext existing_files fname 1
      in (candidate, finsert candidate existing_files))"

section \<open>The application state and its environment\<close>

text \<open>
  One entry of \<^verbatim>\<open>self.images\<close>: the dict \<^verbatim>\<open>{url, data, photo, selected_var, filename}\<close>. The
  \<^verbatim>\<open>tk.BooleanVar\<close> of an item belongs to that item alone, so it is a plain field. The
  thumbnail is opaque: a type parameter.
\<close>

record 'p image_item =
  item_url :: string
  item_data :: bytes
  item_photo :: 'p
  item_selected :: bool
  item_filename :: string

text \<open>
  What the user and the outside world see, in the order it happens: message boxes,
  lines printed to the console, HTTP requests, file writes (with their outcome).
\<close>

datatype notice =
    Warn_no_url
  | Error_page_load
  | Info_no_img_tags
  | Info_none_downloaded
  | Info_loaded nat
  | Warn_no_images
  | Warn_invalid_path
  | Warn_none_selected
  | Info_saved nat string
  | Info_cleared

datatype event =
    Dialog notice
  | Http_get string
  | Print_download_failed string
  | Print_thumbnail_failed string
  | Print_save_failed string
  | File_write string bytes bool

record 'p app =
  images :: "'p image_item list"
  url_var :: string
  save_path_var :: string
  ui_rows :: "string list"
  events :: "event list"

text \<open>
  The parsed \<^verbatim>\<open><img>\<close> tags: a tag is its attribute dictionary, and \<^verbatim>\<open>img.get("src")\<close> is the
  lookup.
\<close>

type_synonym tag = "string \<rightharpoonup> string"

record response =
  resp_text :: string
  resp_content :: bytes

text \<open>
  The libraries and the world the program talks to. A call the source wraps in
  \<^verbatim>\<open>try/except Exception\<close> returns \<open>None\<close> when it raises. \<^verbatim>\<open>os.listdir\<close> is called outside
  any \<^verbatim>\<open>try\<close> and raises \<^verbatim>\<open>OSError\<close> on a directory that exists but cannot be read: its
  answer is a sum, and the exception escapes the operation. \<^verbatim>\<open>os.path.isdir\<close> answers
  \<open>False\<close> instead of raising; the Tk calls are taken to return.
  \<^item> \<open>http_get u\<close>: \<^verbatim>\<open>requests.get(u, timeout=15)\<close> followed by \<^verbatim>\<open>raise_for_status()\<close>;
  \<^item> \<open>find_all_img\<close>: \<^verbatim>\<open>BeautifulSoup(text, "html.parser").find_all("img")\<close>;
  \<^item> \<open>make_photo\<close>: \<^verbatim>\<open>Image.open\<close>, \<^verbatim>\<open>thumbnail((200, 200))\<close>, \<^verbatim>\<open>ImageTk.PhotoImage\<close>;
  \<^item> \<open>bracketed_host_ok\<close>, \<open>nfkc_netloc_ok\<close>: the two checks of \<^verbatim>\<open>urllib.parse.urlsplit\<close>
    that need the \<^verbatim>\<open>ipaddress\<close> and \<^verbatim>\<open>unicodedata\<close> modules;
  \<^item> \<open>isdir\<close>, \<open>listdir\<close>: \<^verbatim>\<open>os.path.isdir\<close> and \<^verbatim>\<open>os.listdir\<close>;
  \<^item> \<open>write_ok path data\<close>: whether \<^verbatim>\<open>open(path, "wb")\<close> and \<^verbatim>\<open>f.write(data)\<close> return.
  Each answer is a function of the arguments of the call: the world does not change its
  mind while one operation runs. The HTML parser is not modelled; a page is what
  \<open>find_all_img\<close> makes of it.
\<close>

datatype os_error = OSError

record 'p env =
  http_get :: "string \<Rightarrow> response option"
  find_all_img :: "string \<Rightarrow> tag list"
  make_photo :: "bytes \<Rightarrow> 'p option"
  bracketed_host_ok :: "string \<Rightarrow> bool"
  nfkc_netloc_ok :: "string \<Rightarrow> bool"
  isdir :: "string \<Rightarrow> bool"
  listdir :: "string \<Rightarrow> os_error + string list"
  write_ok :: "string \<Rightarrow> bytes \<Rightarrow> bool"

definition emit :: "event \<Rightarrow> 'p app \<Rightarrow> 'p app" where
  "emit e st = st\<lparr>events := events st @ [e]\<rparr>"

subsection \<open>\<^verbatim>\<open>str.strip()\<close>\<close>

text \<open>The code points below 256 for which \<^verbatim>\<open>str.isspace\<close> holds.\<close>

definition is_space :: "char \<Rightarrow> bool" where
  "is_space c = (let n = (of_char c :: nat)
                 in (9 \<le> n \<and> n \<le> 13) \<or> (28 \<le> n \<and> n \<le> 32) \<or> n = 133 \<or> n = 160)"

definition strip :: "string \<Rightarrow> string" where
  "strip s = rev (dropWhile is_space (rev (dropWhile is_space s)))"

section \<open>URL handling: \<^verbatim>\<open>urllib.parse\<close>\<close>

text \<open>
  \<^verbatim>\<open>urljoin\<close> and \<^verbatim>\<open>urlparse\<close> are pure functions of the standard library (CPython 3.11),
  transcribed here for \<^verbatim>\<open>str\<close> arguments; they raise \<^verbatim>\<open>ValueError\<close> on a malformed
  network location, and the program calls them outside any \<^verbatim>\<open>try\<close>.
\<close>

datatype url_error = Invalid_IPv6_URL | Invalid_bracketed_host | Invalid_netloc_NFKC

definition uses_relative :: "string list" where
  "uses_relative = ['''', ''ftp'', ''http'', ''gopher'', ''nntp'', ''imap'', ''wais'', ''file'',
     ''https'', ''shttp'', ''mms'', ''prospero'', ''rtsp'', ''rtsps'', ''rtspu'', ''sftp'',
     ''svn'', ''svn+ssh'', ''ws'', ''wss'']"

definition uses_netloc :: "string list" where
  "uses_netloc = ['''', ''ftp'', ''http'', ''gopher'', ''nntp'', ''telnet'', ''imap'', ''wais'',
     ''file'', ''mms'', ''https'', ''shttp'', ''snews'', ''prospero'', ''rtsp'', ''rtsps'',
     ''rtspu'', ''rsync'', ''svn'', ''svn+ssh'', ''sftp'', ''nfs'', ''git'', ''git+ssh'',
     ''ws'', ''wss'']"

definition uses_params :: "string list" where
  "uses_params = ['''', ''ftp'', ''hdl'', ''prospero'', ''http'', ''imap'', ''https'', ''shttp'',
     ''rtsp'', ''rtsps'', ''rtspu'', ''sip'', ''sips'', ''mms'', ''sftp'', ''tel'']"

definition ascii_letters :: string where
  "ascii_letters = ''abcdefghijklmnopqrstuvwxyzABCDEFGHIJKLMNOPQRSTUVWXYZ''"

definition scheme_chars :: string where
  "scheme_chars = ''abcdefghijklmnopqrstuvwxyzABCDEFGHIJKLMNOPQRSTUVWXYZ0123456789+-.''"

text \<open>\<^verbatim>\<open>str.lower()\<close> on the characters a scheme can have.\<close>

definition ascii_lower :: "char \<Rightarrow> char" where
  "ascii_lower c = (let n = (of_char c :: nat) in if 65 \<le> n \<and> n \<le> 90 then char_of (n + 32) else c)"

definition isascii :: "string \<Rightarrow> bool" where
  "isascii s = (\<forall>c \<in> set s. (of_char c :: nat) < 128)"

text \<open>The characters of \<^verbatim>\<open>_WHATWG_C0_CONTROL_OR_SPACE\<close> and of \<^verbatim>\<open>_UNSAFE_URL_BYTES_TO_REMOVE\<close>.\<close>

definition c0_or_space :: "char \<Rightarrow> bool" where
  "c0_or_space c = ((of_char c :: nat) \<le> 32)"

definition unsafe_byte :: "char \<Rightarrow> bool" where
  "unsafe_byte c = ((of_char c :: nat) \<in> {9, 13, 10})"

text \<open>\<^verbatim>\<open>s.find(c, start)\<close>: the first index from \<open>start\<close> on, or -1.\<close>

fun find_in :: "char \<Rightarrow> string \<Rightarrow> int \<Rightarrow> int" where
  "find_in c [] pos = -1"
| "find_in c (x # xs) pos = (if x = c then pos else find_in c xs (pos + 1))"

definition find_from :: "string \<Rightarrow> char \<Rightarrow> nat \<Rightarrow> int" where
  "find_from s c start = find_in c (drop start s) (int start)"

text \<open>Python slices \<open>s[:i]\<close> and \<open>s[i:]\<close>; a negative index counts from the end.\<close>

definition slice_to :: "string \<Rightarrow> int \<Rightarrow> string" where
  "slice_to s i = (if i < 0 then take (nat (int (length s) + i)) s else take (nat i) s)"

definition slice_from :: "string \<Rightarrow> int \<Rightarrow> string" where
  "slice_from s i = (if i < 0 then drop (nat (int (length s) + i)) s else drop (nat i) s)"

text \<open>\<^verbatim>\<open>s.split(c, 1)\<close> when \<open>c\<close> occurs in \<open>s\<close>, and \<^verbatim>\<open>s.split(c)\<close>, \<^verbatim>\<open>c.join(parts)\<close>.\<close>

definition split_once :: "char \<Rightarrow> string \<Rightarrow> string \<times> string" where
  "split_once c s = (takeWhile (\<lambda>x. x \<noteq> c) s, drop 1 (dropWhile (\<lambda>x. x \<noteq> c) s))"

fun split_on :: "char \<Rightarrow> string \<Rightarrow> string list" where
  "split_on c [] = [[]]"
| "split_on c (x # xs) =
     (if x = c then [] # split_on c xs
      else (case split_on c xs of [] \<Rightarrow> [[x]] | h # t \<Rightarrow> (x # h) # t))"

fun join_with :: "string \<Rightarrow> string list \<Rightarrow> string" where
  "join_with sep [] = []"
| "join_with sep [x] = x"
| "join_with sep (x # y # ys) = x @ sep @ join_with sep (y # ys)"

text \<open>
  \<^verbatim>\<open>
    def _splitnetloc(url, start=0):
        delim = len(url)
        for c in '/?#':
            wdelim = url.find(c, start)
            if wdelim >= 0:
                delim = min(delim, wdelim)
        return url[start:delim], url[delim:]
  \<close>
\<close>

definition splitnetloc :: "string \<Rightarrow> nat \<Rightarrow> string \<times> string" where
  "splitnetloc url start =
     (let delim = foldl (\<lambda>delim c. let wdelim = find_from url c start
                                    in if wdelim \<ge> 0 then min delim wdelim else delim)
                        (int (length url)) ''/?#''
      in (drop start (take (nat delim) url), drop (nat delim) url))"

text \<open>
  \<^verbatim>\<open>
    def urlsplit(url, scheme='', allow_fragments=True):
        url = url.lstrip(_WHATWG_C0_CONTROL_OR_SPACE)
        scheme = scheme.strip(_WHATWG_C0_CONTROL_OR_SPACE)
        for b in _UNSAFE_URL_BYTES_TO_REMOVE:
            url = url.replace(b, "")
            scheme = scheme.replace(b, "")
        netloc = query = fragment = ''
        i = url.find(':')
        if i > 0 and url[0].isascii() and url[0].isalpha():
            for c in url[:i]:
                if c not in scheme_chars:
                    break
            else:
                scheme, url = url[:i].lower(), url[i+1:]
        if url[:2] == '//':
            netloc, url = _splitnetloc(url, 2)
            if (('[' in netloc and ']' not in netloc) or
                    (']' in netloc and '[' not in netloc)):
                raise ValueError("Invalid IPv6 URL")
            if '[' in netloc and ']' in netloc:
                bracketed_host = netloc.partition('[')[2].partition(']')[0]
                _check_bracketed_host(bracketed_host)
        if allow_fragments and '#' in url:
            url, fragment = url.split('#', 1)
        if '?' in url:
            url, query = url.split('?', 1)
        _checknetloc(netloc)
        return SplitResult(scheme, netloc, url, query, fragment)
  \<close>
  \<^verbatim>\<open>_check_bracketed_host\<close> (which asks the \<^verbatim>\<open>ipaddress\<close> module) and the normalisation
  test of \<^verbatim>\<open>_checknetloc\<close> (which asks \<^verbatim>\<open>unicodedata\<close>, for a non-ASCII netloc only) are the
  two predicates of the environment; each raises \<^verbatim>\<open>ValueError\<close> when it fails.
\<close>

type_synonym split_result = "string \<times> string \<times> string \<times> string \<times> string"

definition split_tail :: "'p env \<Rightarrow> string \<Rightarrow> string \<Rightarrow> string \<Rightarrow> url_error + split_result" where
  "split_tail env scheme netloc url =
     (let (url1, fragment) = (if CHR ''#'' \<in> set url then split_once CHR ''#'' url else (url, []));
          (url2, query) = (if CHR ''?'' \<in> set url1 then split_once CHR ''?'' url1 else (url1, []))
      in if netloc \<noteq> [] \<and> \<not> isascii netloc \<and> \<not> nfkc_netloc_ok env netloc
         then Inl Invalid_netloc_NFKC
         else Inr (scheme, netloc, url2, query, fragment))"

definition urlsplit :: "'p env \<Rightarrow> string \<Rightarrow> string \<Rightarrow> url_error + split_result" where
  "urlsplit env url0 scheme0 =
     (let url1 = filter (\<lambda>c. \<not> unsafe_byte c) (dropWhile c0_or_space url0);
          scheme1 = filter (\<lambda>c. \<not> unsafe_byte c)
                      (rev (dropWhile c0_or_space (rev (dropWhile c0_or_space scheme0))));
          i = find_from url1 CHR '':'' 0;
          (scheme, url2) =
             (if i > 0 \<and> hd url1 \<in> set ascii_letters \<and>
                 (\<forall>c \<in> set (take (nat i) url1). c \<in> set scheme_chars)
              then (map ascii_lower (take (nat i) url1), drop (nat i + 1) url1)
              else (scheme1, url1))
      in if take 2 url2 = ''//''
         then (let (netloc, url3) = splitnetloc url2 2
               in if (CHR ''['' \<in> set netloc \<and> CHR '']'' \<notin> set netloc) \<or>
                     (CHR '']'' \<in> set netloc \<and> CHR ''['' \<notin> set netloc)
                  then Inl Invalid_IPv6_URL
                  else if CHR ''['' \<in> set netloc \<and> CHR '']'' \<in> set netloc \<and>
                          \<not> bracketed_host_ok env
                              (takeWhile (\<lambda>x. x \<noteq> CHR '']'')
                                 (drop 1 (dropWhile (\<lambda>x. x \<noteq> CHR ''['') netloc)))
                  then Inl Invalid_bracketed_host
                  else split_tail env scheme netloc url3)
         else split_tail env scheme [] url2)"

text \<open>
  \<^verbatim>\<open>
    def urlparse(url, scheme='', allow_fragments=True):
        splitresult = urlsplit(url, scheme, allow_fragments)
        scheme, netloc, url, query, fragment = splitresult
        if scheme in uses_params and ';' in url:
            url, params = _splitparams(url)
        else:
            params = ''
        return ParseResult(scheme, netloc, url, params, query, fragment)

    def _splitparams(url):
        if '/'  in url:
            i = url.find(';', url.rfind('/'))
            if i < 0:
                return url, ''
        else:
            i = url.find(';')
        return url[:i], url[i+1:]
  \<close>
\<close>

type_synonym parse_result = "string \<times> string \<times> string \<times> string \<times> string \<times> string"

definition splitparams :: "string \<Rightarrow> string \<times> string" where
  "splitparams url =
     (if CHR ''/'' \<in> set url
      then (let i = find_from url CHR '';'' (nat (rfind url CHR ''/''))
            in if i < 0 then (url, []) else (slice_to url i, slice_from url (i + 1)))
      else (let i = find_from url CHR '';'' 0
            in (slice_to url i, slice_from url (i + 1))))"

definition urlparse :: "'p env \<Rightarrow> string \<Rightarrow> string \<Rightarrow> url_error + parse_result" where
  "urlparse env url0 scheme0 =
     (case urlsplit env url0 scheme0 of
        Inl e \<Rightarrow> Inl e
      | Inr (scheme, netloc, url, query, fragment) \<Rightarrow>
          (let (url1, params) = (if scheme \<in> set uses_params \<and> CHR '';'' \<in> set url
                                 then splitparams url else (url, []))
           in Inr (scheme, netloc, url1, params, query, fragment)))"

text \<open>
  \<^verbatim>\<open>
    def urlunparse(components):
        scheme, netloc, url, params, query, fragment = components
        if params:
            url = "%s;%s" % (url, params)
        return urlunsplit((scheme, netloc, url, query, fragment))

    def urlunsplit(components):
        scheme, netloc, url, query, fragment = components
        if netloc or (scheme and scheme in uses_netloc) or url[:2] == '//':
            if url and url[:1] != '/': url = '/' + url
            url = '//' + (netloc or '') + url
        if scheme:
            url = scheme + ':' + url
        if query:
            url = url + '?' + query
        if fragment:
            url = url + '#' + fragment
        return url
  \<close>
\<close>

definition urlunsplit :: "split_result \<Rightarrow> string" where
  "urlunsplit components =
     (case components of (scheme, netloc, url, query, fragment) \<Rightarrow>
        (let url1 = (if netloc \<noteq> [] \<or> (scheme \<noteq> [] \<and> scheme \<in> set uses_netloc) \<or> take 2 url = ''//''
                     then ''//'' @ netloc @ (if url \<noteq> [] \<and> take 1 url \<noteq> ''/'' then ''/'' @ url else url)
                     else url);
             url2 = (if scheme \<noteq> [] then scheme @ '':'' @ url1 else url1);
             url3 = (if query \<noteq> [] then url2 @ ''?'' @ query else url2)
         in if fragment \<noteq> [] then url3 @ ''#'' @ fragment else url3))"

definition urlunparse :: "parse_result \<Rightarrow> string" where
  "urlunparse components =
     (case components of (scheme, netloc, url, params, query, fragment) \<Rightarrow>
        urlunsplit (scheme, netloc, if params \<noteq> [] then url @ '';'' @ params else url,
                    query, fragment))"

text \<open>
  \<^verbatim>\<open>
    def urljoin(base, url, allow_fragments=True):
        if not base:
            return url
        if not url:
            return base
        bscheme, bnetloc, bpath, bparams, bquery, bfragment = urlparse(base, '', allow_fragments)
        scheme, netloc, path, params, query, fragment = urlparse(url, bscheme, allow_fragments)
        if scheme != bscheme or scheme not in uses_relative:
            return url
        if scheme in uses_netloc:
            if netloc:
                return urlunparse((scheme, netloc, path, params, query, fragment))
            netloc = bnetloc
        if not path and not params:
            path = bpath
            params = bparams
            if not query:
                query = bquery
            return urlunparse((scheme, netloc, path, params, query, fragment))
        base_parts = bpath.split('/')
        if base_parts[-1] != '':
            del base_parts[-1]
        if path[:1] == '/':
            segments = path.split('/')
        else:
            segments = base_parts + path.split('/')
            segments[1:-1] = filter(None, segments[1:-1])
        resolved_path = []
        for seg in segments:
            if seg == '..':
                try:
                    resolved_path.pop()
                except IndexError:
                    pass
            elif seg == '.':
                continue
            else:
                resolved_path.append(seg)
        if segments[-1] in ('.', '..'):
            resolved_path.append('')
        return urlunparse((scheme, netloc, '/'.join(resolved_path) or '/', params, query, fragment))
  \<close>
\<close>

text \<open>\<^verbatim>\<open>segments[1:-1] = filter(None, segments[1:-1])\<close>; a list of one element is left as it is.\<close>

definition filter_middle :: "string list \<Rightarrow> string list" where
  "filter_middle segments =
     (if length segments < 2 then segments
      else hd segments # filter (\<lambda>s. s \<noteq> []) (butlast (tl segments)) @ [last segments])"

definition resolve_step :: "string list \<Rightarrow> string \<Rightarrow> string list" where
  "resolve_step resolved_path seg =
     (if seg = ''..'' then butlast resolved_path
      else if seg = ''.'' then resolved_path
      else resolved_path @ [seg])"

definition urljoin :: "'p env \<Rightarrow> string \<Rightarrow> string \<Rightarrow> url_error + string" where
  "urljoin env base url =
     (if base = [] then Inr url
      else if url = [] then Inr base
      else case urlparse env base [] of
        Inl e \<Rightarrow> Inl e
      | Inr (bscheme, bnetloc, bpath, bparams, bquery, bfragment) \<Rightarrow>
     (case urlparse env url bscheme of
        Inl e \<Rightarrow> Inl e
      | Inr (scheme, netloc, path, params, query, fragment) \<Rightarrow>
          if scheme \<noteq> bscheme \<or> scheme \<notin> set uses_relative then Inr url
          else if scheme \<in> set uses_netloc \<and> netloc \<noteq> []
          then Inr (urlunparse (scheme, netloc, path, params, query, fragment))
          else
            (let netloc1 = (if scheme \<in> set uses_netloc then bnetloc else netloc)
             in if path = [] \<and> params = []
                then Inr (urlunparse (scheme, netloc1, bpath, bparams,
                                      if query = [] then bquery else query, fragment))
                else
                  (let base_parts0 = split_on CHR ''/'' bpath;
                       base_parts = (if last base_parts0 \<noteq> [] then butlast base_parts0
                                     else base_parts0);
                       segments = (if take 1 path = ''/'' then split_on CHR ''/'' path
                                   else filter_middle (base_parts @ split_on CHR ''/'' path));
                       resolved_path0 = foldl resolve_step [] segments;
                       resolved_path = (if last segments = ''.'' \<or> last segments = ''..''
                                        then resolved_path0 @ [[]] else resolved_path0);
                       joined = join_with ''/'' resolved_path
                   in Inr (urlunparse (scheme, netloc1, if joined = [] then ''/'' else joined,
                                       params, query, fragment))))))"

section \<open>The operations of the application\<close>

subsection \<open>Selection and clearing\<close>

text \<open>
  \<^verbatim>\<open>
    def select_all(self):
        for item in self.images:
            item["selected_var"].set(True)
    def unselect_all(self):
        for item in self.images:
            item["selected_var"].set(False)
    def clear_images(self, silent=False):
        for widget in self.images_frame.winfo_children():
            widget.destroy()
        self.images.clear()
        if not silent:
            messagebox.showinfo("Info", "Cleared all loaded images from program (RAM).")
  \<close>
\<close>

definition select_all :: "'p app \<Rightarrow> 'p app" where
  "select_all st = st\<lparr>images := map (\<lambda>item. item\<lparr>item_selected := True\<rparr>) (images st)\<rparr>"

definition unselect_all :: "'p app \<Rightarrow> 'p app" where
  "unselect_all st = st\<lparr>images := map (\<lambda>item. item\<lparr>item_selected := False\<rparr>) (images st)\<rparr>"

definition clear_images :: "bool \<Rightarrow> 'p app \<Rightarrow> 'p app" where
  "clear_images silent st =
     (let st1 = st\<lparr>ui_rows := [], images := []\<rparr>
      in if \<not> silent then emit (Dialog Info_cleared) st1 else st1)"

subsection \<open>Saving\<close>

text \<open>
  \<^verbatim>\<open>
    def save_selected(self):
        if not self.images:
            messagebox.showwarning("Warning", "No images loaded.")
            return
        target_dir = self.save_path_var.get().strip()
        if not target_dir or not os.path.isdir(target_dir):
            messagebox.showwarning("Warning", "Invalid save path. Please set a valid folder.")
            return
        selected_items = [img for img in self.images if img["selected_var"].get()]
        if not selected_items:
            messagebox.showwarning("Warning", "No images selected.")
            return
        existing_files = set(os.listdir(target_dir))
        saved_count = 0
        for item in selected_items:
            filename = self._unique_filename(target_dir, item["filename"], existing_files)
            full_path = os.path.join(target_dir, filename)
            try:
                with open(full_path, "wb") as f:
                    f.write(item["data"])
                saved_count += 1
            except Exception as e:
                print(f"Failed to save {full_path}: {e}")
        messagebox.showinfo("Info", f"Saved {saved_count} image(s) to:\n{target_dir}")
  \<close>
  The loop state is the set of claimed names, the counter and the events so far. An
  \<^verbatim>\<open>OSError\<close> of \<^verbatim>\<open>os.listdir\<close> escapes the callback and leaves the state as it is: the result is
  \<open>Inl\<close> of the error and that state.
\<close>

fun save_loop ::
  "'p env \<Rightarrow> string \<Rightarrow> 'p image_item list \<Rightarrow> string fset \<Rightarrow> nat \<Rightarrow> event list
     \<Rightarrow> string fset \<times> nat \<times> event list" where
  "save_loop env target_dir [] existing_files saved_count evs = (existing_files, saved_count, evs)"
| "save_loop env target_dir (item # items) existing_files saved_count evs =
     (let (fname, existing_files') = unique_filename target_dir (item_filename item) existing_files;
          full_path = path_join target_dir fname
      in if write_ok env full_path (item_data item)
         then save_loop env target_dir items existing_files' (saved_count + 1)
                (evs @ [File_write full_path (item_data item) True])
         else save_loop env target_dir items existing_files' saved_count
                (evs @ [File_write full_path (item_data item) False, Print_save_failed full_path]))"

definition save_selected :: "'p env \<Rightarrow> 'p app \<Rightarrow> (os_error \<times> 'p app) + 'p app" where
  "save_selected env st =
     (if images st = [] then Inr (emit (Dialog Warn_no_images) st)
      else let target_dir = strip (save_path_var st)
       in if target_dir = [] \<or> \<not> isdir env target_dir
          then Inr (emit (Dialog Warn_invalid_path) st)
          else let selected_items = filter item_selected (images st)
           in if selected_items = [] then Inr (emit (Dialog Warn_none_selected) st)
              else (case listdir env target_dir of
                      Inl e \<Rightarrow> Inl (e, st)
                    | Inr names \<Rightarrow>
                        (let existing_files = fset_of_list names;
                             (claimed, saved_count, evs) =
                                save_loop env target_dir selected_items existing_files 0 (events st)
                         in Inr (st\<lparr>events := evs @ [Dialog (Info_saved saved_count target_dir)]\<rparr>))))"

subsection \<open>Scanning\<close>

text \<open>
  \<^verbatim>\<open>
    def _download_and_add_image(self, image_url: str) -> bool:
        try:
            resp = requests.get(image_url, timeout=15)
            resp.raise_for_status()
            data = resp.content
        except Exception as e:
            print(f"Failed to download image {image_url}: {e}")
            return False
        try:
            img = Image.open(io.BytesIO(data))
            img.thumbnail((200, 200))
            photo = ImageTk.PhotoImage(img)
        except Exception as e:
            print(f"Failed to create thumbnail for {image_url}: {e}")
            return False
        selected_var = tk.BooleanVar(value=True)
        item_frame = tk.Frame(self.images_frame, ...)     # the row of the list
        ...
        parsed = urlparse(image_url)
        filename = os.path.basename(parsed.path)
        if not filename:
            filename = "image"
        if "." not in filename:
            filename = filename + ".jpg"
        self.images.append({"url": image_url, "data": data, "photo": photo,
                            "selected_var": selected_var, "filename": filename})
        return True
  \<close>
  An exception that nothing catches ends the Tk callback and leaves the state as it is at
  that point: the result is \<open>Inl\<close> of the error and that state.
\<close>

definition suggested_filename :: "string \<Rightarrow> string" where
  "suggested_filename path =
     (let filename = basename path;
          filename1 = (if filename = [] then ''image'' else filename)
      in if CHR ''.'' \<notin> set filename1 then filename1 @ ''.jpg'' else filename1)"

definition download_and_add_image ::
  "'p env \<Rightarrow> string \<Rightarrow> 'p app \<Rightarrow> (url_error \<times> 'p app) + (bool \<times> 'p app)" where
  "download_and_add_image env image_url st =
     (let st1 = emit (Http_get image_url) st
      in case http_get env image_url of
           None \<Rightarrow> Inr (False, emit (Print_download_failed image_url) st1)
         | Some resp \<Rightarrow>
             (let data = resp_content resp
              in case make_photo env data of
                   None \<Rightarrow> Inr (False, emit (Print_thumbnail_failed image_url) st1)
                 | Some photo \<Rightarrow>
                     (let selected_var = True;
                          st2 = st1\<lparr>ui_rows := ui_rows st1 @ [image_url]\<rparr>
                      in case urlparse env image_url [] of
                           Inl e \<Rightarrow> Inl (e, st2)
                         | Inr (scheme, netloc, path, params, query, fragment) \<Rightarrow>
                             Inr (True, st2\<lparr>images := images st2 @
                                    [\<lparr>item_url = image_url, item_data = data, item_photo = photo,
                                      item_selected = selected_var,
                                      item_filename = suggested_filename path\<rparr>]\<rparr>))))"

text \<open>
  \<^verbatim>\<open>
    def scan_images(self):
        url = self.url_var.get().strip()
        if not url:
            messagebox.showwarning("Warning", "Please input URL (copy from Chrome address bar).")
            return
        if not (url.startswith("http://") or url.startswith("https://")):
            url = "http://" + url
            self.url_var.set(url)
        self.clear_images(silent=True)
        try:
            resp = requests.get(url, timeout=15)
            resp.raise_for_status()
        except Exception as e:
            messagebox.showerror("Error", f"Failed to load page:\n{e}")
            return
        soup = BeautifulSoup(resp.text, "html.parser")
        img_tags = soup.find_all("img")
        if not img_tags:
            messagebox.showinfo("Info", "No <img> tags found on this page.")
            return
        found_count = 0
        for img in img_tags:
            src = img.get("src")
            if not src:
                continue
            img_url = urljoin(url, src)
            if self._download_and_add_image(img_url):
                found_count += 1
        if found_count == 0:
            messagebox.showinfo("Info", "No images could be downloaded.")
        else:
            messagebox.showinfo("Info", f"Found and loaded {found_count} images into RAM (cache).")
  \<close>
\<close>

definition startswith :: "string \<Rightarrow> string \<Rightarrow> bool" where
  "startswith s prefix = (take (length prefix) s = prefix)"

fun scan_loop ::
  "'p env \<Rightarrow> string \<Rightarrow> tag list \<Rightarrow> nat \<Rightarrow> 'p app \<Rightarrow> (url_error \<times> 'p app) + (nat \<times> 'p app)" where
  "scan_loop env url [] found_count st = Inr (found_count, st)"
| "scan_loop env url (img # img_tags) found_count st =
     (case img ''src'' of
        None \<Rightarrow> scan_loop env url img_tags found_count st
      | Some src \<Rightarrow>
          if src = [] then scan_loop env url img_tags found_count st
          else (case urljoin env url src of
                  Inl e \<Rightarrow> Inl (e, st)
                | Inr img_url \<Rightarrow>
                    (case download_and_add_image env img_url st of
                       Inl failure \<Rightarrow> Inl failure
                     | Inr (ok, st1) \<Rightarrow>
                         scan_loop env url img_tags
                           (if ok then found_count + 1 else found_count) st1)))"

definition scan_images :: "'p env \<Rightarrow> 'p app \<Rightarrow> (url_error \<times> 'p app) + 'p app" where
  "scan_images env st =
     (let url0 = strip (url_var st)
      in if url0 = [] then Inr (emit (Dialog Warn_no_url) st)
         else
           (let prefixed = \<not> (startswith url0 ''http://'' \<or> startswith url0 ''https://'');
                url = (if prefixed then ''http://'' @ url0 else url0);
                st1 = (if prefixed then st\<lparr>url_var := url\<rparr> else st);
                st2 = clear_images True st1;
                st3 = emit (Http_get url) st2
            in case http_get env url of
                 None \<Rightarrow> Inr (emit (Dialog Error_page_load) st3)
               | Some resp \<Rightarrow>
                   (let img_tags = find_all_img env (resp_text resp)
                    in if img_tags = [] then Inr (emit (Dialog Info_no_img_tags) st3)
                       else (case scan_loop env url img_tags 0 st3 of
                               Inl failure \<Rightarrow> Inl failure
                             | Inr (found_count, st4) \<Rightarrow>
                                 Inr (emit (Dialog (if found_count = 0 then Info_none_downloaded
                                                    else Info_loaded found_count)) st4)))))"

text \<open>The state a call leaves, whether it returned or an exception escaped it.\<close>

definition final_state :: "('e \<times> 'p app) + 'p app \<Rightarrow> 'p app" where
  "final_state r = (case r of Inl (e, st) \<Rightarrow> st | Inr st \<Rightarrow> st)"

text \<open>The URLs requested, in order.\<close>

fun requested :: "event list \<Rightarrow> string list" where
  "requested [] = []"
| "requested (Http_get u # evs) = u # requested evs"
| "requested (e # evs) = requested evs"

text \<open>
  The URL a scan fetches for the text of the URL field, and the non-empty \<open>src\<close> values of
  a list of tags: the two quantities the statements below speak of.
\<close>

definition page_url :: "string \<Rightarrow> string" where
  "page_url input =
     (let url0 = strip input
      in if startswith url0 ''http://'' \<or> startswith url0 ''https://'' then url0
         else ''http://'' @ url0)"

definition src_values :: "tag list \<Rightarrow> string list" where
  "src_values img_tags =
     concat (map (\<lambda>img. case img ''src'' of None \<Rightarrow> [] | Some src \<Rightarrow> if src = [] then [] else [src])
                 img_tags)"


text \<open>
  The notion of the specification for "the input has a scheme": a scheme as the URL syntax
  (and \<^verbatim>\<open>urlsplit\<close>) has it, a letter followed by letters, digits, \<open>+\<close>, \<open>-\<close> or \<open>.\<close> up to
  the first colon.
\<close>

definition spec_has_scheme :: "string \<Rightarrow> bool" where
  "spec_has_scheme input =
     (let i = find_from input CHR '':'' 0
      in i > 0 \<and> hd input \<in> set ascii_letters \<and>
         (\<forall>c \<in> set (take (nat i) input). c \<in> set scheme_chars))"

text \<open>
  An environment and a state to run the operations on: every request answers (with an empty
  body), the page parses to the given tags, every image decodes, the target directory
  exists, can be listed and holds the given names, every write succeeds; the application has just started,
  with the given text in the URL field.
\<close>

definition example_env :: "tag list \<Rightarrow> string list \<Rightarrow> unit env" where
  "example_env img_tags names =
     \<lparr>http_get = (\<lambda>u. Some \<lparr>resp_text = [], resp_content = []\<rparr>),
      find_all_img = (\<lambda>text. img_tags),
      make_photo = (\<lambda>data. Some ()),
      bracketed_host_ok = (\<lambda>host. True),
      nfkc_netloc_ok = (\<lambda>netloc. True),
      isdir = (\<lambda>path. True),
      listdir = (\<lambda>path. Inr names),
      write_ok = (\<lambda>path data. True)\<rparr>"

definition example_app :: "string \<Rightarrow> unit app" where
  "example_app input =
     \<lparr>images = [], url_var = input, save_path_var = ''/tmp/out'', ui_rows = [], events = []\<rparr>"

definition example_item :: "string \<Rightarrow> bool \<Rightarrow> unit image_item" where
  "example_item name sel =
     \<lparr>item_url = ''http://x.test/'' @ name, item_data = [1, 2, 3], item_photo = (),
      item_selected = sel, item_filename = name\<rparr>"

definition offline_env :: "unit env" where
  "offline_env = (example_env [] [])\<lparr>http_get := (\<lambda>u. None)\<rparr>"

text \<open>
  A less friendly world: \<open>bad.png\<close> cannot be downloaded, \<open>junk.png\<close> downloads but does not
  decode, the file \<open>b.png\<close> cannot be written; its page holds these two images and a sound
  one. And a world whose target directory exists but cannot be listed.
\<close>

definition flaky_tags :: "tag list" where
  "flaky_tags = [[''src'' \<mapsto> ''bad.png''], [''src'' \<mapsto> ''junk.png''], [''src'' \<mapsto> ''ok.png'']]"

definition flaky_env :: "unit env" where
  "flaky_env = (example_env flaky_tags [''a.png''])
     \<lparr>http_get := (\<lambda>u. if u = ''http://x.test/bad.png'' then None
                       else Some \<lparr>resp_text = [],
                                  resp_content = (if u = ''http://x.test/junk.png'' then [0] else [1])\<rparr>),
      make_photo := (\<lambda>data. if data = [0] then None else Some ()),
      write_ok := (\<lambda>path data. path \<noteq> ''/tmp/out/b.png'')\<rparr>"

definition unlistable_env :: "unit env" where
  "unlistable_env = (example_env [] [])\<lparr>listdir := (\<lambda>path. Inl OSError)\<rparr>"

definition loaded_app :: "string \<Rightarrow> bool \<Rightarrow> bool \<Rightarrow> unit app" where
  "loaded_app input sel_a sel_b =
     (example_app input)\<lparr>images := [example_item ''a.png'' sel_a, example_item ''b.png'' sel_b],
                          ui_rows := [''http://x.test/a.png'', ''http://x.test/b.png'']\<rparr>"


text \<open>Reading the events: the file writes (path, bytes, outcome) and the logged failures.\<close>

fun written :: "event list \<Rightarrow> (string \<times> bytes \<times> bool) list" where
  "written [] = []"
| "written (File_write p d ok # evs) = (p, d, ok) # written evs"
| "written (e # evs) = written evs"

fun save_failures :: "event list \<Rightarrow> string list" where
  "save_failures [] = []"
| "save_failures (Print_save_failed p # evs) = p # save_failures evs"
| "save_failures (e # evs) = save_failures evs"

definition written_paths :: "event list \<Rightarrow> string list" where
  "written_paths evs = map fst (written evs)"

section \<open>Properties of the collision-avoidance loop\<close>

lemma unique_loop_free: "unique_loop base ext E c i |\<notin>| E"
  by (induction base ext E c i rule: unique_loop.induct) (subst unique_loop.simps, simp)

lemma unique_loop_unclaimed: "c |\<notin>| E \<Longrightarrow> unique_loop base ext E c i = c"
  by (subst unique_loop.simps) simp

lemma unique_loop_claimed:
  "c |\<in>| E \<Longrightarrow>
   \<exists>k\<ge>i. unique_loop base ext E c i = numbered base ext k \<and> numbered base ext k |\<notin>| E \<and>
         (\<forall>j. i \<le> j \<and> j < k \<longrightarrow> numbered base ext j |\<in>| E)"
proof (induction base ext E c i rule: unique_loop.induct)
  case (1 base ext E c i)
  have step: "unique_loop base ext E c i = unique_loop base ext E (numbered base ext i) (i + 1)"
    using "1.prems" by (subst unique_loop.simps) simp
  show ?case
  proof (cases "numbered base ext i |\<in>| E")
    case False
    then have "unique_loop base ext E c i = numbered base ext i"
      by (simp add: step unique_loop_unclaimed)
    with False show ?thesis by auto
  next
    case True
    from "1.IH" [OF "1.prems" True] obtain k where k: "i + 1 \<le> k"
      "unique_loop base ext E (numbered base ext i) (i + 1) = numbered base ext k"
      "numbered base ext k |\<notin>| E"
      "\<forall>j. i + 1 \<le> j \<and> j < k \<longrightarrow> numbered base ext j |\<in>| E"
      by blast
    have "\<forall>j. i \<le> j \<and> j < k \<longrightarrow> numbered base ext j |\<in>| E"
    proof (intro allI impI)
      fix j assume "i \<le> j \<and> j < k"
      then have "j = i \<or> (i + 1 \<le> j \<and> j < k)" by arith
      with True k(4) show "numbered base ext j |\<in>| E" by blast
    qed
    with k step show ?thesis
      by (intro exI [of _ k]) simp
  qed
qed

lemma unique_filename_fst:
  "fst (unique_filename d f E) = unique_loop (fst (splitext f)) (snd (splitext f)) E f 1"
  by (simp add: unique_filename_def split_beta Let_def)

lemma unique_filename_snd:
  "snd (unique_filename d f E) = finsert (fst (unique_filename d f E)) E"
  by (simp add: unique_filename_def split_beta Let_def)

lemma unique_filename_a_1:
  "unique_filename d ''a.jpg'' {|''a.jpg''|} = (''a_1.jpg'', {|''a_1.jpg'', ''a.jpg''|})"
  by code_simp

lemma unique_filename_a_2:
  "unique_filename d ''a.jpg'' {|''a_1.jpg'', ''a.jpg''|} =
     (''a_2.jpg'', {|''a_2.jpg'', ''a_1.jpg'', ''a.jpg''|})"
  by code_simp

lemma written_append: "written (xs @ ys) = written xs @ written ys"
  by (induction xs rule: written.induct) auto

lemma save_failures_append: "save_failures (xs @ ys) = save_failures xs @ save_failures ys"
  by (induction xs rule: save_failures.induct) auto

lemma save_loop_Cons:
  "save_loop env d (item # items) E n evs =
     (let name = fst (unique_filename d (item_filename item) E);
          full_path = path_join d name;
          ok = write_ok env full_path (item_data item)
      in save_loop env d items (finsert name E) (if ok then n + 1 else n)
           (evs @ File_write full_path (item_data item) ok #
                  (if ok then [] else [Print_save_failed full_path])))"
  by (simp add: Let_def split_beta unique_filename_snd)

lemma save_loop_events:
  "\<exists>new. snd (snd (save_loop env d items E n evs)) = evs @ new \<and>
         map (fst \<circ> snd) (written new) = map item_data items \<and>
         fst (snd (save_loop env d items E n evs)) = n + length (filter (snd \<circ> snd) (written new)) \<and>
         save_failures new = map fst (filter (\<lambda>w. \<not> snd (snd w)) (written new))"
proof (induction items arbitrary: E n evs)
  case Nil
  show ?case by simp
next
  case (Cons item items)
  define name where "name = fst (unique_filename d (item_filename item) E)"
  define full_path where "full_path = path_join d name"
  define ok where "ok = write_ok env full_path (item_data item)"
  define here where "here = File_write full_path (item_data item) ok #
                  (if ok then [] else [Print_save_failed full_path])"
  have step: "save_loop env d (item # items) E n evs =
      save_loop env d items (finsert name E) (if ok then n + 1 else n) (evs @ here)"
    unfolding save_loop_Cons name_def full_path_def ok_def here_def Let_def ..
  from Cons.IH [of "finsert name E" "if ok then n + 1 else n" "evs @ here"]
  obtain new where new:
    "snd (snd (save_loop env d items (finsert name E) (if ok then n + 1 else n) (evs @ here))) = (evs @ here) @ new"
    "map (fst \<circ> snd) (written new) = map item_data items"
    "fst (snd (save_loop env d items (finsert name E) (if ok then n + 1 else n) (evs @ here))) =
       (if ok then n + 1 else n) + length (filter (snd \<circ> snd) (written new))"
    "save_failures new = map fst (filter (\<lambda>w. \<not> snd (snd w)) (written new))"
    by blast
  show ?case
  proof (intro exI [of _ "here @ new"] conjI)
    show "snd (snd (save_loop env d (item # items) E n evs)) = evs @ here @ new"
      unfolding step using new(1) by simp
    show "map (fst \<circ> snd) (written (here @ new)) = map item_data (item # items)"
      using new(2) by (simp add: written_append here_def)
    show "fst (snd (save_loop env d (item # items) E n evs)) =
            n + length (filter (snd \<circ> snd) (written (here @ new)))"
      unfolding step using new(3) by (simp add: written_append here_def)
    show "save_failures (here @ new) = map fst (filter (\<lambda>w. \<not> snd (snd w)) (written (here @ new)))"
      using new(4) by (simp add: written_append save_failures_append here_def)
  qed
qed

section \<open>Properties of the operations\<close>

lemma images_emit [simp]: "images (emit e st) = images st"
  by (simp add: emit_def)

lemma ui_rows_emit [simp]: "ui_rows (emit e st) = ui_rows st"
  by (simp add: emit_def)

lemma events_emit [simp]: "events (emit e st) = events st @ [e]"
  by (simp add: emit_def)

lemma requested_append: "requested (xs @ ys) = requested xs @ requested ys"
  by (induction xs rule: requested.induct) auto

lemma download_events:
  "\<exists>new. events (case_sum snd snd (download_and_add_image env u st)) = events st @ Http_get u # new"
  by (auto simp: download_and_add_image_def Let_def emit_def split: option.splits sum.splits)




lemma scan_loop_events:
  "\<exists>new. events (case_sum snd snd (scan_loop env url tags found st)) = events st @ new"
proof (induction tags arbitrary: found st)
  case Nil
  show ?case by simp
next
  case (Cons img tags)
  show ?case
  proof (cases "img ''src''")
    case None
    with Cons.IH [of found st] show ?thesis by simp
  next
    case (Some src)
    show ?thesis
    proof (cases "src = []")
      case True
      with Some Cons.IH [of found st] show ?thesis by simp
    next
      case False
      show ?thesis
      proof (cases "urljoin env url src")
        case (Inl e)
        with Some False show ?thesis by simp
      next
        case (Inr img_url)
        from download_events [of env img_url st] obtain new1 where
          new1: "events (case_sum snd snd (download_and_add_image env img_url st))
                   = events st @ Http_get img_url # new1" by blast
        show ?thesis
        proof (cases "download_and_add_image env img_url st")
          case (Inl failure)
          with new1 Some False Inr show ?thesis by (cases failure) simp
        next
          case dl: (Inr r)
          obtain ok st1 where r: "r = (ok, st1)" by (cases r)
          from new1 dl r have e1: "events st1 = events st @ Http_get img_url # new1" by simp
          from Cons.IH [of "if ok then found + 1 else found" st1] obtain new2 where
            "events (case_sum snd snd (scan_loop env url tags (if ok then found + 1 else found) st1))
               = events st1 @ new2" by blast
          with e1 Some False Inr dl r show ?thesis by simp
        qed
      qed
    qed
  qed
qed




lemma example_scan:
  "requested (events (final_state (scan_images
      (example_env [[''src'' \<mapsto> ''/a.png''], [''src'' \<mapsto> ''b.png''], Map.empty] [])
      (example_app ''http://x.test/dir/''))))
   = [''http://x.test/dir/'', ''http://x.test/a.png'', ''http://x.test/dir/b.png'']"
  by code_simp

lemma example_scan_registry:
  "map item_url (images (final_state (scan_images
      (example_env [[''src'' \<mapsto> ''/a.png''], [''src'' \<mapsto> ''b.png''], Map.empty] [])
      (example_app ''http://x.test/dir/''))))
   = [''http://x.test/a.png'', ''http://x.test/dir/b.png'']"
  by code_simp






lemma save_selected_outcomes:
  "(filter item_selected (images st) = [] \<or> strip (save_path_var st) = [] \<or>
      \<not> isdir env (strip (save_path_var st)) \<longrightarrow>
      (\<exists>w. (w = Warn_no_images \<or> w = Warn_invalid_path \<or> w = Warn_none_selected) \<and>
           save_selected env st = Inr (st\<lparr>events := events st @ [Dialog w]\<rparr>))) \<and>
   (filter item_selected (images st) \<noteq> [] \<and> strip (save_path_var st) \<noteq> [] \<and>
      isdir env (strip (save_path_var st)) \<and>
      listdir env (strip (save_path_var st)) = Inr names \<longrightarrow>
      (\<exists>new. save_selected env st =
           Inr (st\<lparr>events := events st @ new @
             [Dialog (Info_saved (length (filter (snd \<circ> snd) (written new)))
                        (strip (save_path_var st)))]\<rparr>) \<and>
         map (fst \<circ> snd) (written new) = map item_data (filter item_selected (images st)) \<and>
         save_failures new = map fst (filter (\<lambda>w. \<not> snd (snd w)) (written new)))) \<and>
   (filter item_selected (images st) \<noteq> [] \<and> strip (save_path_var st) \<noteq> [] \<and>
      isdir env (strip (save_path_var st)) \<and>
      listdir env (strip (save_path_var st)) = Inl e \<longrightarrow>
      save_selected env st = Inl (e, st))"
proof (intro conjI impI)
  assume "filter item_selected (images st) = [] \<or> strip (save_path_var st) = [] \<or>
      \<not> isdir env (strip (save_path_var st))"
  then show "\<exists>w. (w = Warn_no_images \<or> w = Warn_invalid_path \<or> w = Warn_none_selected) \<and>
           save_selected env st = Inr (st\<lparr>events := events st @ [Dialog w]\<rparr>)"
    by (auto simp: save_selected_def Let_def emit_def)
next
  assume some: "filter item_selected (images st) \<noteq> [] \<and> strip (save_path_var st) \<noteq> [] \<and>
      isdir env (strip (save_path_var st)) \<and>
      listdir env (strip (save_path_var st)) = Inl e"
  then have "images st \<noteq> []" by auto
  with some show "save_selected env st = Inl (e, st)"
    by (simp add: save_selected_def Let_def)
next
  assume some: "filter item_selected (images st) \<noteq> [] \<and> strip (save_path_var st) \<noteq> [] \<and>
      isdir env (strip (save_path_var st)) \<and>
      listdir env (strip (save_path_var st)) = Inr names"
  define target_dir where "target_dir = strip (save_path_var st)"
  define selected_items where "selected_items = filter item_selected (images st)"
  define existing_files where "existing_files = fset_of_list names"
  from some have nonempty: "images st \<noteq> []" by auto
  have run: "save_selected env st = Inr (st\<lparr>events :=
      snd (snd (save_loop env target_dir selected_items existing_files 0 (events st))) @
      [Dialog (Info_saved (fst (snd (save_loop env target_dir selected_items existing_files 0 (events st))))
                 target_dir)]\<rparr>)"
    using some nonempty
    by (simp add: save_selected_def Let_def split_beta target_dir_def selected_items_def
        existing_files_def)
  from save_loop_events [of env target_dir selected_items existing_files 0 "events st"]
  obtain new where new:
    "snd (snd (save_loop env target_dir selected_items existing_files 0 (events st))) = events st @ new"
    "map (fst \<circ> snd) (written new) = map item_data selected_items"
    "fst (snd (save_loop env target_dir selected_items existing_files 0 (events st)))
       = 0 + length (filter (snd \<circ> snd) (written new))"
    "save_failures new = map fst (filter (\<lambda>w. \<not> snd (snd w)) (written new))"
    by blast
  show "\<exists>new. save_selected env st =
           Inr (st\<lparr>events := events st @ new @
             [Dialog (Info_saved (length (filter (snd \<circ> snd) (written new)))
                        (strip (save_path_var st)))]\<rparr>) \<and>
         map (fst \<circ> snd) (written new) = map item_data (filter item_selected (images st)) \<and>
         save_failures new = map fst (filter (\<lambda>w. \<not> snd (snd w)) (written new))"
  proof (intro exI [of _ new] conjI)
    show "save_selected env st =
           Inr (st\<lparr>events := events st @ new @
             [Dialog (Info_saved (length (filter (snd \<circ> snd) (written new)))
                        (strip (save_path_var st)))]\<rparr>)"
      unfolding run new(1) new(3) by (simp add: target_dir_def)
    show "map (fst \<circ> snd) (written new) = map item_data (filter item_selected (images st))"
      using new(2) by (simp add: selected_items_def)
    show "save_failures new = map fst (filter (\<lambda>w. \<not> snd (snd w)) (written new))"
      by (rule new(4))
  qed
qed

section \<open>The claims\<close>

text \<open>
  C1. With the directory listing \<open>{a.jpg}\<close>, an item suggesting \<open>a.jpg\<close> is saved as
  \<open>a_1.jpg\<close> and a second item of the batch suggesting \<open>a.jpg\<close> as \<open>a_2.jpg\<close>. In general an
  unclaimed suggestion is kept; a claimed one is replaced by the candidate \<open>base_k ext\<close> with
  the least \<open>k \<ge> 1\<close> that neither the listing nor an earlier item of the batch has claimed,
  all candidates below \<open>k\<close> being claimed. The winning name is claimed before the write and
  whatever the write's outcome: the rest of the batch runs with the name in the set.
\<close>

theorem collision_rule:
  "unique_filename d ''a.jpg'' {|''a.jpg''|} = (''a_1.jpg'', {|''a_1.jpg'', ''a.jpg''|}) \<and>
   unique_filename d ''a.jpg'' {|''a_1.jpg'', ''a.jpg''|}
     = (''a_2.jpg'', {|''a_2.jpg'', ''a_1.jpg'', ''a.jpg''|}) \<and>
   (item_filename i1 = ''a.jpg'' \<and> item_filename i2 = ''a.jpg'' \<longrightarrow>
      written_paths (snd (snd (save_loop env d [i1, i2] {|''a.jpg''|} 0 [])))
        = [path_join d ''a_1.jpg'', path_join d ''a_2.jpg'']) \<and>
   (f |\<notin>| E \<longrightarrow> fst (unique_filename d f E) = f) \<and>
   (f |\<in>| E \<longrightarrow>
      (\<exists>k\<ge>1. fst (unique_filename d f E) = numbered (fst (splitext f)) (snd (splitext f)) k \<and>
         numbered (fst (splitext f)) (snd (splitext f)) k |\<notin>| E \<and>
         (\<forall>j. 1 \<le> j \<and> j < k \<longrightarrow> numbered (fst (splitext f)) (snd (splitext f)) j |\<in>| E))) \<and>
   save_loop env d (item # items) E n evs =
     (let name = fst (unique_filename d (item_filename item) E);
          full_path = path_join d name;
          ok = write_ok env full_path (item_data item)
      in save_loop env d items (finsert name E) (if ok then n + 1 else n)
           (evs @ File_write full_path (item_data item) ok #
                  (if ok then [] else [Print_save_failed full_path])))"
proof (intro conjI impI)
  show "unique_filename d ''a.jpg'' {|''a.jpg''|} = (''a_1.jpg'', {|''a_1.jpg'', ''a.jpg''|})"
    by (rule unique_filename_a_1)
  show "unique_filename d ''a.jpg'' {|''a_1.jpg'', ''a.jpg''|}
     = (''a_2.jpg'', {|''a_2.jpg'', ''a_1.jpg'', ''a.jpg''|})"
    by (rule unique_filename_a_2)
next
  assume "item_filename i1 = ''a.jpg'' \<and> item_filename i2 = ''a.jpg''"
  then show "written_paths (snd (snd (save_loop env d [i1, i2] {|''a.jpg''|} 0 [])))
        = [path_join d ''a_1.jpg'', path_join d ''a_2.jpg'']"
    by (simp add: save_loop_Cons unique_filename_a_1 unique_filename_a_2 Let_def written_paths_def
        del: save_loop.simps(2))
next
  assume "f |\<notin>| E"
  then show "fst (unique_filename d f E) = f"
    by (simp add: unique_filename_fst unique_loop_unclaimed)
next
  assume "f |\<in>| E"
  from unique_loop_claimed [OF this, of 1 "fst (splitext f)" "snd (splitext f)"]
  show "\<exists>k\<ge>1. fst (unique_filename d f E) = numbered (fst (splitext f)) (snd (splitext f)) k \<and>
         numbered (fst (splitext f)) (snd (splitext f)) k |\<notin>| E \<and>
         (\<forall>j. 1 \<le> j \<and> j < k \<longrightarrow> numbered (fst (splitext f)) (snd (splitext f)) j |\<in>| E)"
    by (simp add: unique_filename_fst)
next
  show "save_loop env d (item # items) E n evs =
     (let name = fst (unique_filename d (item_filename item) E);
          full_path = path_join d name;
          ok = write_ok env full_path (item_data item)
      in save_loop env d items (finsert name E) (if ok then n + 1 else n)
           (evs @ File_write full_path (item_data item) ok #
                  (if ok then [] else [Print_save_failed full_path])))"
    by (rule save_loop_Cons)
qed

theorem collision_rule_witness:
  "''a.jpg'' |\<in>| {|''a.jpg''|} \<and>
   (\<exists>k\<ge>1. fst (unique_filename ''/d'' ''a.jpg'' {|''a.jpg''|}) = numbered ''a'' ''.jpg'' k \<and>
      numbered ''a'' ''.jpg'' k |\<notin>| {|''a.jpg''|} \<and>
      (\<forall>j. 1 \<le> j \<and> j < k \<longrightarrow> numbered ''a'' ''.jpg'' j |\<in>| {|''a.jpg''|})) \<and>
   ''z.png'' |\<notin>| {|''a.jpg''|} \<and>
   fst (unique_filename ''/d'' ''z.png'' {|''a.jpg''|}) = ''z.png'' \<and>
   written_paths (snd (snd (save_loop
       \<lparr>http_get = \<lambda>u. None, find_all_img = \<lambda>t. [], make_photo = \<lambda>b. Some (),
        bracketed_host_ok = \<lambda>h. True, nfkc_netloc_ok = \<lambda>h. True, isdir = \<lambda>d. True,
        listdir = \<lambda>d. Inr [''a.jpg''], write_ok = \<lambda>p b. False\<rparr>
       ''/d''
       [\<lparr>item_url = ''http://x.test/a.jpg'', item_data = [1, 2], item_photo = (),
         item_selected = True, item_filename = ''a.jpg''\<rparr>,
        \<lparr>item_url = ''http://x.test/b/a.jpg'', item_data = [3], item_photo = (),
         item_selected = True, item_filename = ''a.jpg''\<rparr>]
       {|''a.jpg''|} 0 [])))
     = [''/d/a_1.jpg'', ''/d/a_2.jpg'']"
proof -
  have s: "splitext ''a.jpg'' = (''a'', ''.jpg'')" by code_simp
  have j1: "path_join ''/d'' ''a_1.jpg'' = ''/d/a_1.jpg''" by (simp add: path_join_def)
  have j2: "path_join ''/d'' ''a_2.jpg'' = ''/d/a_2.jpg''" by (simp add: path_join_def)
  let ?env = "\<lparr>http_get = \<lambda>u. None, find_all_img = \<lambda>t. [], make_photo = \<lambda>b. Some (),
        bracketed_host_ok = \<lambda>h. True, nfkc_netloc_ok = \<lambda>h. True, isdir = \<lambda>d. True,
        listdir = \<lambda>d. Inr [''a.jpg''], write_ok = \<lambda>p b. False\<rparr>"
  let ?i1 = "\<lparr>item_url = ''http://x.test/a.jpg'', item_data = [1, 2], item_photo = (),
         item_selected = True, item_filename = ''a.jpg''\<rparr>"
  let ?i2 = "\<lparr>item_url = ''http://x.test/b/a.jpg'', item_data = [3], item_photo = (),
         item_selected = True, item_filename = ''a.jpg''\<rparr>"
  note a = collision_rule [of "''/d''" ?i1 ?i2 ?env "''a.jpg''" "{|''a.jpg''|}"]
  note z = collision_rule [of "''/d''" ?i1 ?i2 ?env "''z.png''" "{|''a.jpg''|}"]
  have claimed: "''a.jpg'' |\<in>| {|''a.jpg''|}" by simp
  have free: "''z.png'' |\<notin>| {|''a.jpg''|}" by simp
  from a claimed have 1: "\<exists>k\<ge>1. fst (unique_filename ''/d'' ''a.jpg'' {|''a.jpg''|}) = numbered ''a'' ''.jpg'' k \<and>
      numbered ''a'' ''.jpg'' k |\<notin>| {|''a.jpg''|} \<and>
      (\<forall>j. 1 \<le> j \<and> j < k \<longrightarrow> numbered ''a'' ''.jpg'' j |\<in>| {|''a.jpg''|})"
    unfolding s fst_conv snd_conv by blast
  from z free have 2: "fst (unique_filename ''/d'' ''z.png'' {|''a.jpg''|}) = ''z.png''"
    by blast
  have names: "item_filename ?i1 = ''a.jpg'' \<and> item_filename ?i2 = ''a.jpg''" by simp
  from a names have "written_paths (snd (snd (save_loop ?env ''/d'' [?i1, ?i2] {|''a.jpg''|} 0 [])))
     = [path_join ''/d'' ''a_1.jpg'', path_join ''/d'' ''a_2.jpg'']"
    by blast
  then have 3: "written_paths (snd (snd (save_loop ?env ''/d'' [?i1, ?i2] {|''a.jpg''|} 0 [])))
     = [''/d/a_1.jpg'', ''/d/a_2.jpg'']"
    unfolding j1 j2 .
  from claimed 1 free 2 3 show ?thesis by blast
qed

text \<open>
  C2, as stated, fails. The input \<open>ftp://x.test/pics\<close> has a scheme, and the URL fetched is not
  the input: the program puts \<open>http://\<close> in front of it, because the test of the source is
  \<^verbatim>\<open>startswith("http://") or startswith("https://")\<close>, not the presence of a scheme.
\<close>

theorem auto_prefix_counterexample:
  "spec_has_scheme ''ftp://x.test/pics'' \<and> strip ''ftp://x.test/pics'' \<noteq> [] \<and>
   requested (events (final_state (scan_images (example_env [] []) (example_app ''ftp://x.test/pics''))))
     = [''http://ftp://x.test/pics'']"
  by code_simp

text \<open>
  C2, amended. For every text of the URL field that is not empty once surrounding white space
  is stripped, the first request of the scan goes to the stripped text itself when it starts
  with \<open>http://\<close> or \<open>https://\<close>, and to \<open>http://\<close> followed by the stripped text otherwise.
\<close>

theorem fetched_url:
  "strip input \<noteq> [] \<Longrightarrow> url_var st = input \<Longrightarrow>
   \<exists>rest. requested (events (final_state (scan_images env st))) =
     requested (events st) @
     (if startswith (strip input) ''http://'' \<or> startswith (strip input) ''https://''
      then strip input else ''http://'' @ strip input) # rest"
proof -
  assume nonempty: "strip input \<noteq> []" and input: "url_var st = input"
  define prefixed where
    "prefixed = (\<not> (startswith (strip input) ''http://'' \<or> startswith (strip input) ''https://''))"
  define url where "url = (if prefixed then ''http://'' @ strip input else strip input)"
  define st3 where "st3 = emit (Http_get url) (clear_images True
      (if prefixed then st\<lparr>url_var := url\<rparr> else st))"
  have ev3: "events st3 = events st @ [Http_get url]"
    by (simp add: st3_def clear_images_def Let_def)
  have scan: "scan_images env st =
      (case http_get env url of
         None \<Rightarrow> Inr (emit (Dialog Error_page_load) st3)
       | Some resp \<Rightarrow>
           (let img_tags = find_all_img env (resp_text resp)
            in if img_tags = [] then Inr (emit (Dialog Info_no_img_tags) st3)
               else (case scan_loop env url img_tags 0 st3 of
                       Inl failure \<Rightarrow> Inl failure
                     | Inr (found_count, st4) \<Rightarrow>
                         Inr (emit (Dialog (if found_count = 0 then Info_none_downloaded
                                            else Info_loaded found_count)) st4))))"
    unfolding scan_images_def Let_def st3_def url_def prefixed_def input
    using nonempty by simp
  have "\<exists>new. events (final_state (scan_images env st)) = events st3 @ new"
  proof (cases "http_get env url")
    case None
    then show ?thesis by (simp add: scan final_state_def)
  next
    case (Some resp)
    show ?thesis
    proof (cases "find_all_img env (resp_text resp) = []")
      case True
      with Some show ?thesis by (simp add: scan final_state_def)
    next
      case False
      from scan_loop_events [of env url "find_all_img env (resp_text resp)" 0 st3]
      obtain new where new: "events (case_sum snd snd
          (scan_loop env url (find_all_img env (resp_text resp)) 0 st3)) = events st3 @ new"
        by blast
      show ?thesis
      proof (cases "scan_loop env url (find_all_img env (resp_text resp)) 0 st3")
        case (Inl failure)
        with new Some False show ?thesis
          by (cases failure) (simp add: scan final_state_def)
      next
        case (Inr r)
        with new Some False show ?thesis
          by (cases r) (simp add: scan final_state_def)
      qed
    qed
  qed
  then obtain new where "events (final_state (scan_images env st)) = events st @ Http_get url # new"
    by (auto simp: ev3)
  then have "requested (events (final_state (scan_images env st)))
      = requested (events st) @ url # requested new"
    by (simp add: requested_append)
  moreover have "url = (if startswith (strip input) ''http://'' \<or> startswith (strip input) ''https://''
      then strip input else ''http://'' @ strip input)"
    by (simp add: url_def prefixed_def)
  ultimately have "requested (events (final_state (scan_images env st)))
      = requested (events st) @
        (if startswith (strip input) ''http://'' \<or> startswith (strip input) ''https://''
         then strip input else ''http://'' @ strip input) # requested new"
    by simp
  then show ?thesis by (rule exI)
qed

theorem fetched_url_witness:
  "strip ''  x.test/gallery '' \<noteq> [] \<and>
   (\<exists>rest. requested (events (final_state
        (scan_images (example_env [] []) (example_app ''  x.test/gallery ''))))
      = ''http://x.test/gallery'' # rest)"
proof -
  have s: "strip ''  x.test/gallery '' = ''x.test/gallery''" by code_simp
  have p: "\<not> startswith ''x.test/gallery'' ''http://''" "\<not> startswith ''x.test/gallery'' ''https://''"
    by code_simp+
  have u: "url_var (example_app ''  x.test/gallery '') = ''  x.test/gallery ''"
    by (simp add: example_app_def)
  have e: "events (example_app ''  x.test/gallery '') = []"
    by (simp add: example_app_def)
  from s have n: "strip ''  x.test/gallery '' \<noteq> []" by simp
  from fetched_url [OF n u, of "example_env [] []"] show ?thesis
    unfolding s e using p by simp
qed

text \<open>
  C3. The page of the example, \<^verbatim>\<open><img src="/a.png"><img src="b.png"><img>\<close> under
  \<open>http://x.test/dir/\<close> (three tags, the last one with no attribute), does give the two candidates \<open>http://x.test/a.png\<close> and
  \<open>http://x.test/dir/b.png\<close>, in this order, after the page itself, the tag without \<open>src\<close>
  being passed over (first conjunct; \<open>example_scan_registry\<close> and \<open>scan_loop_registry\<close> above
  give the registry and the general rule for a scan that returns). But not every tag with a
  non-empty \<open>src\<close> yields a candidate: \<^verbatim>\<open>urljoin\<close> raises \<^verbatim>\<open>ValueError\<close> on the \<open>src\<close> value
  \<open>//[\<close>, the call is outside any \<^verbatim>\<open>try\<close>, and the scan ends there. The tag \<open>b.png\<close> that follows
  is never requested, and the user gets no message.
\<close>

theorem malformed_src_ends_scan:
  "requested (events (final_state (scan_images
      (example_env [[''src'' \<mapsto> ''/a.png''], [''src'' \<mapsto> ''b.png''], Map.empty] [])
      (example_app ''http://x.test/dir/''))))
   = [''http://x.test/dir/'', ''http://x.test/a.png'', ''http://x.test/dir/b.png''] \<and>
   src_values [[''src'' \<mapsto> ''//[''], [''src'' \<mapsto> ''b.png'']] = [''//['', ''b.png''] \<and>
   scan_images (example_env [[''src'' \<mapsto> ''//[''], [''src'' \<mapsto> ''b.png'']] [])
      (example_app ''http://x.test/dir/'')
   = Inl (Invalid_IPv6_URL,
          \<lparr>images = [], url_var = ''http://x.test/dir/'', save_path_var = ''/tmp/out'',
           ui_rows = [], events = [Http_get ''http://x.test/dir/'']\<rparr>)"
  by code_simp



text \<open>
  C5. When the request for the page fails, the scan returns after showing the error dialog,
  the registry is empty, and the page request is the only request made: no image download
  is attempted.
\<close>

theorem page_fetch_failure:
  "strip (url_var st) \<noteq> [] \<Longrightarrow> http_get env (page_url (url_var st)) = None \<Longrightarrow>
   \<exists>st1. scan_images env st = Inr st1 \<and> images st1 = [] \<and>
     events st1 = events st @ [Http_get (page_url (url_var st)), Dialog Error_page_load]"
  by (auto simp: scan_images_def page_url_def Let_def clear_images_def emit_def)

theorem page_fetch_failure_witness:
  "strip (url_var (loaded_app ''x.test'' True True)) \<noteq> [] \<and>
   http_get offline_env (page_url (url_var (loaded_app ''x.test'' True True))) = None \<and>
   (\<exists>st1. scan_images offline_env (loaded_app ''x.test'' True True) = Inr st1 \<and> images st1 = [] \<and>
      events st1 = [Http_get ''http://x.test'', Dialog Error_page_load])"
proof -
  have a: "strip (url_var (loaded_app ''x.test'' True True)) \<noteq> []" by code_simp
  have b: "http_get offline_env (page_url (url_var (loaded_app ''x.test'' True True))) = None"
    by (simp add: offline_env_def)
  have p: "page_url (url_var (loaded_app ''x.test'' True True)) = ''http://x.test''" by code_simp
  have e: "events (loaded_app ''x.test'' True True) = []"
    by (simp add: loaded_app_def example_app_def)
  from page_fetch_failure [OF a b] show ?thesis
    unfolding p e using a b p by simp
qed

text \<open>
  C6. After \<open>select_all\<close> every item of the registry is selected, after \<open>unselect_all\<close> none is,
  whatever the flags were (the registry keeps its length); and an item that
  \<open>download_and_add_image\<close> appends is selected.
\<close>

theorem selection_flags:
  "length (images (select_all st)) = length (images st) \<and>
   (\<forall>item \<in> set (images (select_all st)). item_selected item) \<and>
   length (images (unselect_all st)) = length (images st) \<and>
   (\<forall>item \<in> set (images (unselect_all st)). \<not> item_selected item) \<and>
   (download_and_add_image env image_url st = Inr (True, st1) \<longrightarrow>
      (\<exists>item. images st1 = images st @ [item] \<and> item_selected item))"
proof (intro conjI impI)
  show "length (images (select_all st)) = length (images st)"
    by (simp add: select_all_def)
  show "\<forall>item \<in> set (images (select_all st)). item_selected item"
    by (simp add: select_all_def)
  show "length (images (unselect_all st)) = length (images st)"
    by (simp add: unselect_all_def)
  show "\<forall>item \<in> set (images (unselect_all st)). \<not> item_selected item"
    by (simp add: unselect_all_def)
next
  assume "download_and_add_image env image_url st = Inr (True, st1)"
  then show "\<exists>item. images st1 = images st @ [item] \<and> item_selected item"
    by (auto simp: download_and_add_image_def Let_def split: option.splits sum.splits)
qed

theorem selection_flags_witness:
  "map item_selected (images (loaded_app [] True False)) = [True, False] \<and>
   map item_selected (images (select_all (loaded_app [] True False))) = [True, True] \<and>
   map item_selected (images (unselect_all (loaded_app [] True False))) = [False, False] \<and>
   (\<exists>st1. download_and_add_image (example_env [] []) ''http://x.test/c.png'' (loaded_app [] True False)
            = Inr (True, st1) \<and>
          (\<exists>item. images st1 = images (loaded_app [] True False) @ [item] \<and> item_selected item))"
proof -
  define st1 where "st1 = snd (projr (download_and_add_image (example_env [] [])
      ''http://x.test/c.png'' (loaded_app [] True False)))"
  have dl: "download_and_add_image (example_env [] []) ''http://x.test/c.png''
      (loaded_app [] True False) = Inr (True, st1)"
    unfolding st1_def by code_simp
  have sel: "map item_selected (images (loaded_app [] True False)) = [True, False]"
    "map item_selected (images (select_all (loaded_app [] True False))) = [True, True]"
    "map item_selected (images (unselect_all (loaded_app [] True False))) = [False, False]"
    by (simp_all add: loaded_app_def example_app_def example_item_def select_all_def unselect_all_def)
  from selection_flags [of "loaded_app [] True False" "example_env [] []" "''http://x.test/c.png''" st1] dl
  have "\<exists>item. images st1 = images (loaded_app [] True False) @ [item] \<and> item_selected item"
    by blast
  with dl sel show ?thesis by blast
qed

text \<open>
  C7. Clearing leaves the registry (and the list of rows) empty, clearing twice as well, and
  a second clearing does to the registry nothing the first did not do: a silent second
  clearing leaves the state as it is. \<open>clear_images\<close> has no failing branch. The user-invoked
  variant shows its notice each time.
\<close>

theorem clear_twice:
  "images (clear_images silent st) = [] \<and>
   images (clear_images silent2 (clear_images silent st)) = [] \<and>
   ui_rows (clear_images silent2 (clear_images silent st)) = [] \<and>
   clear_images True (clear_images silent st) = clear_images silent st \<and>
   events (clear_images False (clear_images False st))
     = events st @ [Dialog Info_cleared, Dialog Info_cleared]"
  by (simp add: clear_images_def Let_def emit_def)

theorem clear_twice_witness:
  "images (loaded_app [] True True) \<noteq> [] \<and>
   images (clear_images False (clear_images False (loaded_app [] True True))) = [] \<and>
   events (clear_images False (clear_images False (loaded_app [] True True)))
     = [Dialog Info_cleared, Dialog Info_cleared]"
  using clear_twice [of False "loaded_app [] True True" False]
  by (simp add: loaded_app_def example_app_def)

text \<open>
  C8. With no selected item the operation shows its warning and attempts no write, and in a
  directory that can be listed every selected item gets its write, a failed write is logged
  and passed over, and the count shown is the number of writes that succeeded (first two
  conjuncts, on the example; \<open>save_selected_outcomes\<close> above has the general statement). But
  the count is not shown on every request that passes the guards: \<^verbatim>\<open>os.listdir\<close> is called
  outside any \<^verbatim>\<open>try\<close>, and on a directory that \<^verbatim>\<open>os.path.isdir\<close> accepts but that cannot be
  listed its \<^verbatim>\<open>OSError\<close> escapes. With two selected items the operation then ends with no
  write, no warning and no report, the state as it was.
\<close>

theorem unlistable_directory_ends_save:
  "save_selected flaky_env (loaded_app [] False False)
     = Inr ((loaded_app [] False False)\<lparr>events := [Dialog Warn_none_selected]\<rparr>) \<and>
   save_selected flaky_env (loaded_app [] True True)
     = Inr ((loaded_app [] True True)\<lparr>events :=
         [File_write ''/tmp/out/a_1.png'' [1, 2, 3] True,
          File_write ''/tmp/out/b.png'' [1, 2, 3] False,
          Print_save_failed ''/tmp/out/b.png'',
          Dialog (Info_saved 1 ''/tmp/out'')]\<rparr>) \<and>
   filter item_selected (images (loaded_app [] True True))
     = [example_item ''a.png'' True, example_item ''b.png'' True] \<and>
   isdir unlistable_env (strip (save_path_var (loaded_app [] True True))) \<and>
   listdir unlistable_env (strip (save_path_var (loaded_app [] True True))) = Inl OSError \<and>
   save_selected unlistable_env (loaded_app [] True True) = Inl (OSError, loaded_app [] True True) \<and>
   events (final_state (save_selected unlistable_env (loaded_app [] True True))) = []"
  by code_simp

text \<open>
  C9. A scan with an empty or blank URL field only shows the warning: the state is otherwise
  unchanged, in particular the registry with its order and its selection flags, and no
  request is made.
\<close>

theorem blank_url_scan:
  "strip (url_var st) = [] \<Longrightarrow>
   scan_images env st = Inr (st\<lparr>events := events st @ [Dialog Warn_no_url]\<rparr>) \<and>
   images (final_state (scan_images env st)) = images st \<and>
   ui_rows (final_state (scan_images env st)) = ui_rows st \<and>
   requested (events (final_state (scan_images env st))) = requested (events st)"
  by (simp add: scan_images_def final_state_def emit_def requested_append)

theorem blank_url_scan_witness:
  "strip (url_var (loaded_app ''   '' True False)) = [] \<and>
   images (final_state (scan_images offline_env (loaded_app ''   '' True False)))
     = [example_item ''a.png'' True, example_item ''b.png'' False] \<and>
   events (final_state (scan_images offline_env (loaded_app ''   '' True False))) = [Dialog Warn_no_url]"
proof -
  have b: "strip (url_var (loaded_app ''   '' True False)) = []" by code_simp
  from blank_url_scan [OF b, of offline_env] show ?thesis
    using b by (simp add: loaded_app_def example_app_def final_state_def)
qed

text \<open>
  C10. For every finite set of claimed names and every suggested name, the collision loop
  ends (\<open>unique_loop\<close> is a total function, by the termination proof above), the name it
  returns is not in the set it was given, and the set it leaves is the given one with
  exactly that name added. The counter starts at 1 at every call: when the suggested name
  is claimed, the result carries the least number \<open>k \<ge> 1\<close> whose candidate is unclaimed,
  whatever numbers earlier items of the batch received; so after \<open>a.jpg\<close> became
  \<open>a_1.jpg\<close>, a colliding \<open>b.jpg\<close> becomes \<open>b_1.jpg\<close>.
\<close>

theorem unique_filename_fresh:
  "(\<exists>name. unique_filename d f E = (name, finsert name E) \<and> name |\<notin>| E \<and>
     (if f |\<notin>| E then name = f
      else \<exists>k\<ge>1. name = numbered (fst (splitext f)) (snd (splitext f)) k \<and>
             (\<forall>j. 1 \<le> j \<and> j < k \<longrightarrow> numbered (fst (splitext f)) (snd (splitext f)) j |\<in>| E)))
   \<and> fst (unique_filename d ''b.jpg'' (snd (unique_filename d ''a.jpg'' {|''a.jpg'', ''b.jpg''|})))
       = ''b_1.jpg''"
proof -
  define name where "name = fst (unique_filename d f E)"
  have eq: "unique_filename d f E = (name, finsert name E)"
    unfolding name_def by (metis prod.collapse unique_filename_snd)
  have loop: "name = unique_loop (fst (splitext f)) (snd (splitext f)) E f 1"
    unfolding name_def by (rule unique_filename_fst)
  have fresh: "name |\<notin>| E"
    unfolding loop by (rule unique_loop_free)
  have shape: "if f |\<notin>| E then name = f
      else \<exists>k\<ge>1. name = numbered (fst (splitext f)) (snd (splitext f)) k \<and>
             (\<forall>j. 1 \<le> j \<and> j < k \<longrightarrow> numbered (fst (splitext f)) (snd (splitext f)) j |\<in>| E)"
  proof (cases "f |\<in>| E")
    case False
    then show ?thesis by (simp add: loop unique_loop_unclaimed)
  next
    case True
    from unique_loop_claimed [OF True, of 1 "fst (splitext f)" "snd (splitext f)"]
    show ?thesis using True unfolding loop by auto
  qed
  have batch: "fst (unique_filename d ''b.jpg'' (snd (unique_filename d ''a.jpg'' {|''a.jpg'', ''b.jpg''|})))
       = ''b_1.jpg''"
    by code_simp
  from eq fresh shape batch show ?thesis by blast
qed

theorem unique_filename_fresh_witness:
  "''a.jpg'' |\<in>| {|''a.jpg'', ''a_1.jpg''|} \<and>
   (\<exists>name. unique_filename ''/tmp'' ''a.jpg'' {|''a.jpg'', ''a_1.jpg''|}
              = (name, finsert name {|''a.jpg'', ''a_1.jpg''|}) \<and>
           name |\<notin>| {|''a.jpg'', ''a_1.jpg''|} \<and>
           (\<exists>k\<ge>1. name = numbered ''a'' ''.jpg'' k \<and>
               (\<forall>j. 1 \<le> j \<and> j < k \<longrightarrow> numbered ''a'' ''.jpg'' j |\<in>| {|''a.jpg'', ''a_1.jpg''|})))"
proof -
  have s: "splitext ''a.jpg'' = (''a'', ''.jpg'')" by code_simp
  show ?thesis
    using unique_filename_fresh [of "''/tmp''" "''a.jpg''" "{|''a.jpg'', ''a_1.jpg''|}"]
    by (simp add: s)
qed

end
